theory Spec2Isabelle
  imports Main "HOL-Library.Sublist" "HOL-Library.AList"
begin

section \<open>Strings as the source uses them\<close>

text \<open>
  A JavaScript string is a sequence of UTF-16 code units. The model works on \<^typ>\<open>string\<close>,
  so a \<^typ>\<open>char\<close> stands for a code unit below 256 (the Latin-1 range); larger code
  units are outside the model.
\<close>

text \<open>\<^verbatim>\<open>s.startsWith(p)\<close>, \<^verbatim>\<open>s.endsWith(p)\<close> and \<^verbatim>\<open>s.includes(p)\<close>.\<close>

definition startsWith :: "string \<Rightarrow> string \<Rightarrow> bool" where
  "startsWith s p = (take (length p) s = p)"

definition endsWith :: "string \<Rightarrow> string \<Rightarrow> bool" where
  "endsWith s p = (length p \<le> length s \<and> drop (length s - length p) s = p)"

fun includes_str :: "string \<Rightarrow> string \<Rightarrow> bool" where
  "includes_str [] p = (p = [])"
| "includes_str (c # cs) p = (startsWith (c # cs) p \<or> includes_str cs p)"

declare includes_str.simps [simp del]

text \<open>
  \<^verbatim>\<open>s.toLowerCase()\<close> on code units below 256: the ASCII capitals and the Latin-1
  capitals (192 to 222 without the multiplication sign 215) move up by 32.
\<close>

definition toLowerCase_char :: "char \<Rightarrow> char" where
  "toLowerCase_char c =
     (let n = (of_char c :: nat)
      in if (65 \<le> n \<and> n \<le> 90) \<or> (192 \<le> n \<and> n \<le> 222 \<and> n \<noteq> 215)
         then char_of (n + 32) else c)"

definition toLowerCase :: "string \<Rightarrow> string" where
  "toLowerCase s = map toLowerCase_char s"

text \<open>\<^verbatim>\<open>xs.join(sep)\<close> on an array of strings.\<close>

fun join :: "string \<Rightarrow> string list \<Rightarrow> string" where
  "join sep [] = []"
| "join sep [x] = x"
| "join sep (x # y # ys) = x @ sep @ join sep (y # ys)"

text \<open>The decimal rendering of a non-negative integer inside a template literal.\<close>

definition digit_char :: "nat \<Rightarrow> char" where
  "digit_char d = ''0123456789'' ! d"

fun toString :: "nat \<Rightarrow> string" where
  "toString n = (if n < 10 then [digit_char n] else toString (n div 10) @ [digit_char (n mod 10)])"

declare toString.simps [simp del]

section \<open>Browser storage\<close>

text \<open>
  \<^verbatim>\<open>localStorage\<close> is a platform object, not code of the repository. Its interface is
  modelled as the HTML standard describes it: \<^verbatim>\<open>getItem\<close> returns the stored value or
  \<^verbatim>\<open>null\<close> and never throws; \<^verbatim>\<open>setItem\<close> throws a \<^verbatim>\<open>QuotaExceededError\<close> when
  the new value could not be set, which happens when the user has disabled storage for
  the site or when the quota is exceeded. The quota is counted in code units of keys
  and values.
\<close>

datatype exn = QuotaExceededError | TypeError | NotReadableError | NetworkError

record localStorage =
  entries :: "(string \<times> string) list"
  quota :: nat
  disabled :: bool

definition usage :: "(string \<times> string) list \<Rightarrow> nat" where
  "usage es = sum_list (map (\<lambda>(k, v). length k + length v) es)"

definition setItem :: "localStorage \<Rightarrow> string \<Rightarrow> string \<Rightarrow> exn + localStorage" where
  "setItem ls k v =
     (let es = AList.update k v (entries ls)
      in if disabled ls \<or> quota ls < usage es then Inl QuotaExceededError
         else Inr (ls\<lparr>entries := es\<rparr>))"

definition getItem :: "localStorage \<Rightarrow> string \<Rightarrow> string option" where
  "getItem ls k = map_of (entries ls) k"

section \<open>Workspace utilities\<close>

text \<open>
  A function that can throw returns the exception (\<open>Inl\<close>) or its value (\<open>Inr\<close>),
  paired with the state it leaves behind: a write made before the exception stays made.

  The browser state the workspace utilities act on: the storage and the list of
  locations handed to \<^verbatim>\<open>window.open\<close>, oldest first.
\<close>

record browser =
  storage :: localStorage
  opened :: "string list"

text \<open>The \<^verbatim>\<open>metadata\<close> argument of \<^verbatim>\<open>openIDEWorkspace\<close>, as far as the function reads it.\<close>

record ide_metadata =
  code :: "string option"
  fileName :: "string option"

record workspace_info =
  workspaceId :: string
  url :: string
  metadata :: "ide_metadata option"

text \<open>
  A JavaScript value used as a condition: an absent or empty string is falsy. This is
  \<^verbatim>\<open>x || d\<close> for an optional string.
\<close>

definition or_else :: "string option \<Rightarrow> string \<Rightarrow> string" where
  "or_else x d = (case x of None \<Rightarrow> d | Some s \<Rightarrow> if s = [] then d else s)"

definition truthy :: "string option \<Rightarrow> bool" where
  "truthy x = (case x of None \<Rightarrow> False | Some s \<Rightarrow> s \<noteq> [])"

text \<open>
  \<^verbatim>\<open>openIDEWorkspace(metadata)\<close>. The first argument is the value \<^verbatim>\<open>Date.now()\<close>
  returns during the call (milliseconds since the epoch).
\<close>

definition openIDEWorkspace ::
  "nat \<Rightarrow> ide_metadata option \<Rightarrow> browser \<Rightarrow> (exn + workspace_info) \<times> browser" where
  "openIDEWorkspace now md b =
     (let wid = ''workspace-'' @ toString now;
          saved =
            (case md of
               None \<Rightarrow> (None, storage b)
             | Some m \<Rightarrow>
                 if truthy (code m) then
                   (case setItem (storage b) (wid @ ''-code'') (the (code m)) of
                      Inl e \<Rightarrow> (Some e, storage b)
                    | Inr ls1 \<Rightarrow>
                        (case setItem ls1 (wid @ ''-fileName'') (or_else (fileName m) ''app.tsx'') of
                           Inl e \<Rightarrow> (Some e, ls1)
                         | Inr ls2 \<Rightarrow> (None, ls2)))
                 else (None, storage b))
      in case saved of
           (Some e, ls) \<Rightarrow> (Inl e, b\<lparr>storage := ls\<rparr>)
         | (None, ls) \<Rightarrow>
             (let vscodeUrl = ''https://vscode.dev/?folder=/tmp/'' @ wid
              in (Inr \<lparr>workspaceId = wid, url = vscodeUrl, metadata = md\<rparr>,
                  \<lparr>storage = ls, opened = opened b @ [vscodeUrl]\<rparr>)))"

text \<open>
  \<^verbatim>\<open>saveCodeToWorkspace(code, fileName, workspaceId?)\<close>: an absent or empty
  \<^verbatim>\<open>workspaceId\<close> is replaced by a name built from the clock.
\<close>

definition saveCodeToWorkspace ::
  "nat \<Rightarrow> string \<Rightarrow> string \<Rightarrow> string option \<Rightarrow> localStorage \<Rightarrow> (exn + string) \<times> localStorage" where
  "saveCodeToWorkspace now c fn wid ls =
     (let ident = or_else wid (''workspace-'' @ toString now)
      in case setItem ls (ident @ ''-code'') c of
           Inl e \<Rightarrow> (Inl e, ls)
         | Inr ls1 \<Rightarrow>
             (case setItem ls1 (ident @ ''-fileName'') fn of
                Inl e \<Rightarrow> (Inl e, ls1)
              | Inr ls2 \<Rightarrow> (Inr ident, ls2)))"

text \<open>\<^verbatim>\<open>loadCodeFromWorkspace(workspaceId)\<close> returns the pair \<^verbatim>\<open>{ code, fileName }\<close>.\<close>

definition loadCodeFromWorkspace :: "string \<Rightarrow> localStorage \<Rightarrow> string option \<times> string option" where
  "loadCodeFromWorkspace wid ls = (getItem ls (wid @ ''-code''), getItem ls (wid @ ''-fileName''))"

section \<open>The chat endpoint\<close>

text \<open>
  The regular expressions of \<open>extractUrl\<close> and \<open>extractAppName\<close>. For code units
  below 256 the class \<^verbatim>\<open>\s\<close> holds the tab, the line feed, the vertical tab, the
  form feed, the carriage return, the space and the no-break space, and \<^verbatim>\<open>\w\<close> holds
  the ASCII letters, the digits and the underscore (also under the flag \<^verbatim>\<open>i\<close>).
\<close>

definition isSpace :: "char \<Rightarrow> bool" where
  "isSpace c = (c \<in> {CHR 0x09, CHR 0x0A, CHR 0x0B, CHR 0x0C, CHR 0x0D, CHR 0x20, CHR 0xA0})"

definition isWord :: "char \<Rightarrow> bool" where
  "isWord c = (c \<in> set ''abcdefghijklmnopqrstuvwxyzABCDEFGHIJKLMNOPQRSTUVWXYZ0123456789_'')"

text \<open>
  A match of \<^verbatim>\<open>https?:\/\/[^\s]+\<close> that starts at the head of \<open>s\<close>: the optional
  \<open>s\<close> is tried first, and the greedy class takes the whole run up to the next white
  space, which must not be empty.
\<close>

definition url_match :: "string \<Rightarrow> string option" where
  "url_match s =
     (if startsWith s ''https://'' \<and> takeWhile (\<lambda>c. \<not> isSpace c) (drop 8 s) \<noteq> []
      then Some (''https://'' @ takeWhile (\<lambda>c. \<not> isSpace c) (drop 8 s))
      else if startsWith s ''http://'' \<and> takeWhile (\<lambda>c. \<not> isSpace c) (drop 7 s) \<noteq> []
      then Some (''http://'' @ takeWhile (\<lambda>c. \<not> isSpace c) (drop 7 s))
      else None)"

text \<open>The matcher tries every start position from the left.\<close>

fun first_url :: "string \<Rightarrow> string option" where
  "first_url [] = None"
| "first_url (c # cs) =
     (case url_match (c # cs) of Some u \<Rightarrow> Some u | None \<Rightarrow> first_url cs)"

text \<open>\<^verbatim>\<open>extractUrl(message)\<close>: the first element of the array of all matches, or \<open>""\<close>.\<close>

definition extractUrl :: "string \<Rightarrow> string" where
  "extractUrl message = (case first_url message of Some u \<Rightarrow> u | None \<Rightarrow> [])"

text \<open>
  A match of \<^verbatim>\<open>/app like (\w+)/i\<close> at the head of \<open>s\<close>, giving the captured group. The
  nine pattern characters are ASCII letters and spaces; a code unit below 256 equals
  one of them up to case exactly when its lower-case form is that character.
\<close>

definition app_match :: "string \<Rightarrow> string option" where
  "app_match s =
     (if toLowerCase (take 9 s) = ''app like '' \<and> takeWhile isWord (drop 9 s) \<noteq> []
      then Some (takeWhile isWord (drop 9 s)) else None)"

fun first_app :: "string \<Rightarrow> string option" where
  "first_app [] = None"
| "first_app (c # cs) =
     (case app_match (c # cs) of Some a \<Rightarrow> Some a | None \<Rightarrow> first_app cs)"

definition extractAppName :: "string \<Rightarrow> string" where
  "extractAppName message =
     (case first_app message of Some a \<Rightarrow> a | None \<Rightarrow> ''the requested application'')"

text \<open>
  The interface \<open>UploadedFile\<close>: the fields \<open>name\<close>, \<open>type\<close>, \<open>size\<close>, \<open>content?\<close>
  and \<open>url?\<close>.
\<close>

record uploaded_file =
  name :: string
  file_type :: string
  size_bytes :: nat
  content :: "string option"
  blob_url :: "string option"

text \<open>The interface \<open>Message\<close>, as far as a request carries it in \<open>history\<close>.\<close>

datatype role = user | assistant

record chat_message =
  msg_id :: string
  msg_role :: role
  msg_content :: string

text \<open>
  The body of a request, after \<^verbatim>\<open>request.json()\<close>. A field that is absent is
  \<open>None\<close>; \<open>message\<close> is also \<open>None\<close> when it is not a string.
\<close>

record chat_request =
  message :: "string option"
  model :: "string option"
  history :: "chat_message list"
  files :: "uploaded_file list option"

text \<open>
  The response text is one of nine fixed templates. Three of them interpolate the
  joined file names and one the application name. A value of this type names the
  template and holds what is interpolated into it.
\<close>

datatype narrative =
    ImagesNarrative string
  | ZipNarrative string
  | FigmaNarrative
  | FilesNarrative string
  | GithubNarrative
  | WebsiteNarrative
  | BuildNarrative string
  | DebugNarrative
  | HelpNarrative

text \<open>
  The object \<open>metadata\<close>: the fields \<open>openIDE\<close>, \<open>type\<close>, \<open>files\<close>, \<open>url\<close> and
  \<open>appName\<close>, each absent in some branches, and \<open>modelUsed\<close> and \<open>provider\<close>, which
  the endpoint adds at the end.
\<close>

record chat_metadata =
  openIDE :: "bool option"
  type_tag :: "string option"
  md_files :: "uploaded_file list option"
  md_url :: "string option"
  appName :: "string option"
  modelUsed :: "string option"
  provider :: "string option"

text \<open>The body of the answer: the fields \<open>response\<close>, \<open>metadata\<close> and \<open>model\<close>.\<close>

record chat_response =
  response :: narrative
  res_metadata :: chat_metadata
  res_model :: string

text \<open>An entry of the imported table \<open>MODEL_CONFIGS\<close>, which is not part of the sources.\<close>

record model_config =
  cfg_name :: string
  cfg_provider :: string

definition no_metadata :: chat_metadata where
  "no_metadata = \<lparr>openIDE = None, type_tag = None, md_files = None, md_url = None,
                   appName = None, modelUsed = None, provider = None\<rparr>"

text \<open>
  Lines 8 to 45 of the handler: the choice of the response text and of the metadata.
  \<^verbatim>\<open>message.toLowerCase()\<close> throws a \<open>TypeError\<close> when \<open>message\<close> is not a string; the
  handler reaches it only when no file is attached.
\<close>

definition classify :: "string option \<Rightarrow> uploaded_file list option \<Rightarrow> exn + narrative \<times> chat_metadata" where
  "classify msg fs =
     (if fs \<noteq> None \<and> the fs \<noteq> [] then
        (let fileNames = join '', '' (map name (the fs))
         in if list_ex (\<lambda>f. startsWith (file_type f) ''image/'') (the fs) then
              Inr (ImagesNarrative fileNames,
                   no_metadata\<lparr>openIDE := Some True, type_tag := Some ''image-analysis'', md_files := fs\<rparr>)
            else if list_ex (\<lambda>f. endsWith (name f) ''.zip'') (the fs) then
              Inr (ZipNarrative fileNames,
                   no_metadata\<lparr>openIDE := Some True, type_tag := Some ''zip-extraction'', md_files := fs\<rparr>)
            else if list_ex (\<lambda>f. includes_str (name f) ''figma'' \<or> includes_str (file_type f) ''figma'') (the fs) then
              Inr (FigmaNarrative,
                   no_metadata\<lparr>openIDE := Some True, type_tag := Some ''figma-conversion'', md_files := fs\<rparr>)
            else
              Inr (FilesNarrative fileNames,
                   no_metadata\<lparr>openIDE := Some True, type_tag := Some ''file-analysis'', md_files := fs\<rparr>))
      else
        (case msg of
           None \<Rightarrow> Inl TypeError
         | Some m \<Rightarrow>
             if includes_str (toLowerCase m) ''clone'' \<and> (includes_str m ''http'' \<or> includes_str m ''github'') then
               (if includes_str m ''github.com'' then
                  Inr (GithubNarrative,
                       no_metadata\<lparr>openIDE := Some True, type_tag := Some ''github'', md_url := Some (extractUrl m)\<rparr>)
                else
                  Inr (WebsiteNarrative,
                       no_metadata\<lparr>openIDE := Some True, type_tag := Some ''website'', md_url := Some (extractUrl m)\<rparr>))
             else if includes_str (toLowerCase m) ''build'' \<and> includes_str (toLowerCase m) ''app like'' then
               Inr (BuildNarrative (extractAppName m),
                    no_metadata\<lparr>openIDE := Some True, type_tag := Some ''build'', appName := Some (extractAppName m)\<rparr>)
             else if includes_str (toLowerCase m) ''debug'' \<or> includes_str (toLowerCase m) ''fix'' then
               Inr (DebugNarrative, no_metadata\<lparr>openIDE := Some True, type_tag := Some ''debug''\<rparr>)
             else Inr (HelpNarrative, no_metadata)))"

text \<open>
  What the handler answers: the JSON body with status 200, or the body
  \<^verbatim>\<open>{ error: "Failed to process request" }\<close> with status 500 from the \<open>catch\<close> block.
\<close>

datatype http_result = Ok chat_response | ServerError string

text \<open>
  The handler of the chat endpoint (\<open>POST\<close> in \<open>route.ts\<close>). The table
  \<open>MODEL_CONFIGS\<close> is a parameter: \<open>cfg k\<close> is the entry under the key \<open>k\<close>, if any.
  An absent \<open>model\<close> indexes the table with \<open>undefined\<close>; when neither that entry nor
  the entry \<open>venice\<close> exists, reading \<open>selectedModel.name\<close> throws. The field
  \<open>history\<close> is taken from the body and not read again.
\<close>

definition POST :: "(string \<Rightarrow> model_config option) \<Rightarrow> chat_request \<Rightarrow> http_result" where
  "POST cfg req =
     (case classify (message req) (files req) of
        Inl e \<Rightarrow> ServerError ''Failed to process request''
      | Inr (text, md) \<Rightarrow>
          (let selectedModel =
                 (case cfg (case model req of None \<Rightarrow> ''undefined'' | Some k \<Rightarrow> k) of
                    Some c \<Rightarrow> Some c
                  | None \<Rightarrow> cfg ''venice'')
           in case selectedModel of
                None \<Rightarrow> ServerError ''Failed to process request''
              | Some c \<Rightarrow>
                  Ok \<lparr>response = text,
                      res_metadata = md\<lparr>modelUsed := Some (cfg_name c),
                                        provider := Some (cfg_provider c)\<rparr>,
                      res_model = or_else (model req) ''venice''\<rparr>))"

section \<open>File upload\<close>

text \<open>
  A browser \<open>File\<close>: its name, type and size, and what \<^verbatim>\<open>file.text()\<close> resolves to;
  \<open>None\<close> stands for a payload that cannot be read, where the promise rejects with a
  \<open>NotReadableError\<close>.
\<close>

record raw_file =
  raw_name :: string
  raw_type :: string
  raw_size :: nat
  raw_text :: "string option"

text \<open>
  The state of the component that \<open>handleFileUpload\<close> touches: the list
  \<open>uploadedFiles\<close> and the number of object URLs created so far, from which
  \<^verbatim>\<open>URL.createObjectURL\<close> names the next one.
\<close>

record upload_state =
  uploadedFiles :: "uploaded_file list"
  object_urls :: nat

text \<open>
  The loop of \<open>handleFileUpload\<close> over the chosen files, with the list \<open>newFiles\<close>
  built so far. Only the last branch reads the payload inside a \<open>try\<close>.
\<close>

fun extract_files ::
  "raw_file list \<Rightarrow> uploaded_file list \<Rightarrow> nat \<Rightarrow> (exn + uploaded_file list) \<times> nat" where
  "extract_files [] newFiles n = (Inr newFiles, n)"
| "extract_files (f # fs) newFiles n =
     (if startsWith (raw_type f) ''image/'' then
        extract_files fs
          (newFiles @ [\<lparr>name = raw_name f, file_type = raw_type f, size_bytes = raw_size f,
                        content = None, blob_url = Some (''blob:'' @ toString n)\<rparr>])
          (Suc n)
      else if raw_type f = ''application/zip'' \<or> endsWith (raw_name f) ''.zip'' then
        (case raw_text f of
           None \<Rightarrow> (Inl NotReadableError, n)
         | Some t \<Rightarrow>
             extract_files fs
               (newFiles @ [\<lparr>name = raw_name f, file_type = raw_type f, size_bytes = raw_size f,
                             content = Some t, blob_url = None\<rparr>])
               n)
      else
        (case raw_text f of
           None \<Rightarrow>
             extract_files fs
               (newFiles @ [\<lparr>name = raw_name f, file_type = raw_type f, size_bytes = raw_size f,
                             content = None, blob_url = None\<rparr>])
               n
         | Some t \<Rightarrow>
             extract_files fs
               (newFiles @ [\<lparr>name = raw_name f, file_type = raw_type f, size_bytes = raw_size f,
                             content = Some t, blob_url = None\<rparr>])
               n))"

text \<open>
  \<open>handleFileUpload(event)\<close>, with \<open>event.target.files\<close> as its argument. When the
  loop throws, \<open>setUploadedFiles\<close> is never reached: the descriptors built so far are
  dropped, and the object URLs created so far stay allocated.
\<close>

definition handleFileUpload :: "raw_file list option \<Rightarrow> upload_state \<Rightarrow> (exn + unit) \<times> upload_state" where
  "handleFileUpload chosen st =
     (case chosen of
        None \<Rightarrow> (Inr (), st)
      | Some fs \<Rightarrow>
          (case extract_files fs [] (object_urls st) of
             (Inl e, n) \<Rightarrow> (Inl e, st\<lparr>object_urls := n\<rparr>)
           | (Inr newFiles, n) \<Rightarrow>
               (Inr (), \<lparr>uploadedFiles = uploadedFiles st @ newFiles, object_urls = n\<rparr>)))"

section \<open>Deployment\<close>

text \<open>The body of a request to the deploy endpoint; \<open>fileTree\<close> is opaque to it.\<close>

record 'tree deploy_request =
  platform :: string
  dr_code :: string
  dr_fileName :: string
  fileTree :: 'tree

text \<open>The answer of the deploy endpoint: \<open>success\<close>, and \<open>url\<close>, \<open>repoUrl\<close>, \<open>error\<close> where present.\<close>

record deploy_response =
  success :: bool
  dep_url :: "string option"
  repoUrl :: "string option"
  error :: "string option"

text \<open>
  \<open>deployToVercel\<close> and \<open>pushToGitHub\<close> simulate the deployment. Each reading of
  \<^verbatim>\<open>Date.now()\<close> is an argument.
\<close>

definition deployToVercel :: "nat \<Rightarrow> nat \<Rightarrow> string \<times> string" where
  "deployToVercel t1 t2 =
     (''https://your-app-'' @ toString t1 @ ''.vercel.app'',
      ''https://github.com/user/your-app-'' @ toString t2)"

definition pushToGitHub :: "nat \<Rightarrow> string" where
  "pushToGitHub t = ''https://github.com/user/your-app-'' @ toString t"

text \<open>
  The handler of the deploy endpoint (\<open>POST\<close> of the deploy route). \<open>None\<close> is a body
  that \<^verbatim>\<open>request.json()\<close> cannot parse: the \<open>catch\<close> block answers for it.
\<close>

definition POST_deploy :: "nat \<Rightarrow> nat \<Rightarrow> 'tree deploy_request option \<Rightarrow> deploy_response" where
  "POST_deploy t1 t2 body =
     (case body of
        None \<Rightarrow> \<lparr>success = False, dep_url = None, repoUrl = None, error = Some ''Deployment failed''\<rparr>
      | Some req \<Rightarrow>
          if platform req = ''vercel'' then
            \<lparr>success = True, dep_url = Some (fst (deployToVercel t1 t2)),
             repoUrl = Some (snd (deployToVercel t1 t2)), error = None\<rparr>
          else if platform req = ''github'' then
            \<lparr>success = True, dep_url = None, repoUrl = Some (pushToGitHub t1), error = None\<rparr>
          else \<lparr>success = False, dep_url = None, repoUrl = None, error = Some ''Invalid platform''\<rparr>)"

text \<open>The state \<open>deploymentStatus\<close> of the component, and the platforms of \<open>handleDeploy\<close>.\<close>

datatype deployment_status = Idle | Deploying | Success | Error

datatype deploy_platform = Vercel | Github

definition platform_name :: "deploy_platform \<Rightarrow> string" where
  "platform_name p = (case p of Vercel \<Rightarrow> ''vercel'' | Github \<Rightarrow> ''github'')"

text \<open>
  What \<open>handleDeploy\<close> does to the component, in order: a call of
  \<open>setDeploymentStatus\<close>; the append of the message that reports the platform, the
  \<open>url\<close> and the \<open>repoUrl\<close> of the answer; a call of \<open>setTimeout\<close> with its delay in
  milliseconds and the status its callback sets.
\<close>

datatype deploy_effect =
    SetDeploymentStatus deployment_status
  | AppendDeployMessage string "string option" "string option"
  | SetTimeout nat deployment_status

text \<open>The part of the component that \<open>handleDeploy\<close> reads.\<close>

record 'tree editor =
  codeContent :: string
  ed_fileName :: string
  ed_fileTree :: 'tree

text \<open>
  The \<open>try\<close> block of \<open>handleDeploy\<close>. The transport is a parameter: it takes the body
  of the request and gives the parsed answer, or the exception that \<open>fetch\<close> or
  \<^verbatim>\<open>response.json()\<close> throws.
\<close>

definition handleDeploy_body ::
  "deploy_platform \<Rightarrow> ('tree deploy_request \<Rightarrow> exn + deploy_response) \<Rightarrow> 'tree editor \<Rightarrow>
   exn + deploy_effect list" where
  "handleDeploy_body p transport ed =
     (case transport \<lparr>platform = platform_name p, dr_code = codeContent ed,
                      dr_fileName = ed_fileName ed, fileTree = ed_fileTree ed\<rparr> of
        Inl e \<Rightarrow> Inl e
      | Inr data \<Rightarrow>
          if success data then
            Inr [SetDeploymentStatus Success,
                 AppendDeployMessage (platform_name p) (dep_url data) (repoUrl data)]
          else Inr [SetDeploymentStatus Error])"

text \<open>
  \<open>handleDeploy(platform)\<close>: the result is the exception that leaves the function, if
  any, and the effects in the order they happen.
\<close>

definition handleDeploy ::
  "deploy_platform \<Rightarrow> ('tree deploy_request \<Rightarrow> exn + deploy_response) \<Rightarrow> 'tree editor \<Rightarrow>
   (exn + unit) \<times> deploy_effect list" where
  "handleDeploy p transport ed =
     (Inr (),
      [SetDeploymentStatus Deploying] @
      (case handleDeploy_body p transport ed of
         Inl e \<Rightarrow> [SetDeploymentStatus Error]
       | Inr effects \<Rightarrow> effects) @
      [SetTimeout 3000 Idle])"

text \<open>
  The values \<open>deploymentStatus\<close> takes through the effects of one attempt: each status
  set directly, in order, then the status set by each timer. A timer of the attempt is
  set by its last statement and fires after its delay, so after every direct set.
\<close>

definition emitted :: "deploy_effect list \<Rightarrow> deployment_status list" where
  "emitted effects =
     concat (map (\<lambda>e. case e of SetDeploymentStatus s \<Rightarrow> [s] | _ \<Rightarrow> []) effects) @
     concat (map (\<lambda>e. case e of SetTimeout d s \<Rightarrow> [s] | _ \<Rightarrow> []) effects)"

text \<open>The transport that reaches the deploy endpoint of the repository itself.\<close>

definition own_endpoint :: "nat \<Rightarrow> nat \<Rightarrow> 'tree deploy_request \<Rightarrow> exn + deploy_response" where
  "own_endpoint t1 t2 req = Inr (POST_deploy t1 t2 (Some req))"

text \<open>
  The categories of the specification, and the tag (the field \<open>type\<close> of the metadata)
  by which the code marks each: the clone categories are tagged \<open>github\<close> and
  \<open>website\<close>, the build category \<open>build\<close>, and the category \<open>none\<close> is the metadata
  without the field.
\<close>

datatype category =
    ImageAnalysis | ZipExtraction | FigmaConversion | FileAnalysis
  | GithubClone | WebsiteClone | AppBuild | Debug | NoCategory

definition category_of :: "string option \<Rightarrow> category option" where
  "category_of t =
     (if t = None then Some NoCategory
      else if t = Some ''image-analysis'' then Some ImageAnalysis
      else if t = Some ''zip-extraction'' then Some ZipExtraction
      else if t = Some ''figma-conversion'' then Some FigmaConversion
      else if t = Some ''file-analysis'' then Some FileAnalysis
      else if t = Some ''github'' then Some GithubClone
      else if t = Some ''website'' then Some WebsiteClone
      else if t = Some ''build'' then Some AppBuild
      else if t = Some ''debug'' then Some Debug
      else None)"

text \<open>
  The words of the pattern \<^verbatim>\<open>https?://\S+\<close>, and the first match of the pattern in a
  message as a regular expression engine defines it: the match that starts leftmost
  and, among those, is longest (the class is greedy); the empty string stands for no
  match.
\<close>

definition matches_url :: "string \<Rightarrow> bool" where
  "matches_url u =
     (\<exists>b. b \<noteq> [] \<and> \<not> list_ex isSpace b \<and> (u = ''http://'' @ b \<or> u = ''https://'' @ b))"

definition url_match_at :: "string \<Rightarrow> nat \<Rightarrow> string \<Rightarrow> bool" where
  "url_match_at m i u = (i \<le> length m \<and> prefix u (drop i m) \<and> matches_url u)"

definition first_url_match :: "string \<Rightarrow> string \<Rightarrow> bool" where
  "first_url_match m u =
     ((u = [] \<and> \<not> (\<exists>i v. url_match_at m i v)) \<or>
      (\<exists>i. url_match_at m i u \<and> \<not> (\<exists>j v. j < i \<and> url_match_at m j v) \<and>
           \<not> (\<exists>v. url_match_at m i v \<and> length u < length v)))"

text \<open>
  The stores that calls of \<open>saveCodeToWorkspace\<close> and \<open>openIDEWorkspace\<close> can reach
  from an empty store, together with the workspace names the calls have written under. A call that ended in an
  exception counts: it may have written the first of its two entries.
\<close>

inductive saved_ids :: "localStorage \<Rightarrow> string set \<Rightarrow> bool" where
  fresh: "entries ls = [] \<Longrightarrow> saved_ids ls {}"
| save: "saved_ids ls I \<Longrightarrow> saveCodeToWorkspace now c fn wid ls = (r, ls') \<Longrightarrow>
         saved_ids ls' (insert (or_else wid (''workspace-'' @ toString now)) I)"
| opened_ide: "saved_ids (storage b) I \<Longrightarrow> openIDEWorkspace now md b = (r, b') \<Longrightarrow>
         saved_ids (storage b') (insert (''workspace-'' @ toString now) I)"

text \<open>Concrete stores used by the examples below.\<close>

definition store0 :: localStorage where
  "store0 = \<lparr>entries = [], quota = 1000, disabled = False\<rparr>"

definition store1 :: localStorage where
  "store1 = \<lparr>entries = [(''w1-code'', ''let x = 1''), (''w1-fileName'', ''a.tsx'')],
              quota = 1000, disabled = False\<rparr>"

definition store2 :: localStorage where
  "store2 = \<lparr>entries = [(''w1-code'', ''let y = 2''), (''w1-fileName'', ''b.tsx'')],
              quota = 1000, disabled = False\<rparr>"

definition store_ws :: localStorage where
  "store_ws = \<lparr>entries = [(''workspace-1700000000000-code'', ''let x = 1''),
                          (''workspace-1700000000000-fileName'', ''a.tsx'')],
               quota = 1000, disabled = False\<rparr>"

definition store_ws2 :: localStorage where
  "store_ws2 = \<lparr>entries = [(''workspace-1700000000000-code'', ''let y = 2''),
                           (''workspace-1700000000000-fileName'', ''b.tsx'')],
                quota = 1000, disabled = False\<rparr>"

definition store_w0 :: localStorage where
  "store_w0 = \<lparr>entries = [(''workspace-0-code'', ''let x = 1''),
                          (''workspace-0-fileName'', ''a.tsx'')],
               quota = 1000, disabled = False\<rparr>"

definition full_store :: localStorage where
  "full_store = \<lparr>entries = [(''k'', ''0123456789'')], quota = 11, disabled = False\<rparr>"

definition disabled_store :: localStorage where
  "disabled_store = \<lparr>entries = [], quota = 1000, disabled = True\<rparr>"

definition logo_png :: uploaded_file where
  "logo_png = \<lparr>name = ''logo.png'', file_type = ''image/png'', size_bytes = 2048,
                content = None, blob_url = Some ''blob:0''\<rparr>"

text \<open>A table of models with the single entry \<open>venice\<close>, for the examples below.\<close>

definition example_configs :: "string \<Rightarrow> model_config option" where
  "example_configs k =
     (if k = ''venice'' then Some \<lparr>cfg_name = ''Venice AI'', cfg_provider = ''Venice''\<rparr> else None)"

text \<open>Transports for the examples below: one that fails, one whose answer reports a failure.\<close>

definition failing_transport :: "unit deploy_request \<Rightarrow> exn + deploy_response" where
  "failing_transport req = Inl NetworkError"

definition refusing_transport :: "unit deploy_request \<Rightarrow> exn + deploy_response" where
  "refusing_transport req =
     Inr \<lparr>success = False, dep_url = None, repoUrl = None, error = Some ''Deployment failed''\<rparr>"

definition netlify_request :: "unit deploy_request" where
  "netlify_request =
     \<lparr>platform = ''netlify'', dr_code = ''let x = 1'', dr_fileName = ''app.tsx'', fileTree = ()\<rparr>"

definition example_editor :: "unit editor" where
  "example_editor = \<lparr>codeContent = ''let x = 1'', ed_fileName = ''app.tsx'', ed_fileTree = ()\<rparr>"

section \<open>Properties of the workspace utilities\<close>

lemma getItem_setItem_same: "setItem ls k v = Inr ls' \<Longrightarrow> getItem ls' k = Some v"
  by (auto simp: setItem_def getItem_def Let_def update_conv' split: if_splits)

lemma getItem_setItem_other:
  "setItem ls k v = Inr ls' \<Longrightarrow> k' \<noteq> k \<Longrightarrow> getItem ls' k' = getItem ls k'"
  by (auto simp: setItem_def getItem_def Let_def update_conv' split: if_splits)

lemma setItem_Inl: "setItem ls k v = Inl e \<Longrightarrow> e = QuotaExceededError"
  by (auto simp: setItem_def Let_def split: if_splits)

lemma code_key_neq_fileName_key: "w @ ''-code'' \<noteq> w' @ ''-fileName''"
proof
  assume "w @ ''-code'' = w' @ ''-fileName''"
  then have "rev (w @ ''-code'') = rev (w' @ ''-fileName'')" by simp
  then show False by simp
qed

lemma fileName_key_neq_code_key: "w @ ''-fileName'' \<noteq> w' @ ''-code''"
  using code_key_neq_fileName_key by metis

lemma toString_example: "toString 1700000000000 = ''1700000000000''"
  by (simp add: toString.simps digit_char_def)

lemma save_Inr:
  assumes "saveCodeToWorkspace now c fn wid ls = (Inr ident, ls')"
  shows "ident = or_else wid (''workspace-'' @ toString now)"
    and "\<exists>ls1. setItem ls (ident @ ''-code'') c = Inr ls1 \<and>
               setItem ls1 (ident @ ''-fileName'') fn = Inr ls'"
  using assms by (auto simp: saveCodeToWorkspace_def Let_def split: sum.splits)

lemma save_load:
  assumes "saveCodeToWorkspace now c fn wid ls = (Inr ident, ls')"
  shows "loadCodeFromWorkspace ident ls' = (Some c, Some fn)"
proof -
  from save_Inr(2)[OF assms] obtain ls1 where
    a: "setItem ls (ident @ ''-code'') c = Inr ls1" and
    b: "setItem ls1 (ident @ ''-fileName'') fn = Inr ls'" by blast
  have "getItem ls' (ident @ ''-code'') = getItem ls1 (ident @ ''-code'')"
    using getItem_setItem_other[OF b] code_key_neq_fileName_key by blast
  then show ?thesis
    using getItem_setItem_same[OF a] getItem_setItem_same[OF b]
    by (simp add: loadCodeFromWorkspace_def)
qed

lemma setItem_other_workspace:
  assumes "setItem ls k v = Inr ls'" and "k = ident @ ''-code'' \<or> k = ident @ ''-fileName''"
    and "w \<noteq> ident"
  shows "loadCodeFromWorkspace w ls' = loadCodeFromWorkspace w ls"
proof -
  have "w @ ''-code'' \<noteq> k" "w @ ''-fileName'' \<noteq> k"
    using assms(2,3) code_key_neq_fileName_key fileName_key_neq_code_key by auto
  then show ?thesis
    using getItem_setItem_other[OF assms(1)] by (simp add: loadCodeFromWorkspace_def)
qed

lemma save_other:
  assumes "saveCodeToWorkspace now c fn wid ls = (r, ls')"
    and "w \<noteq> or_else wid (''workspace-'' @ toString now)"
  shows "loadCodeFromWorkspace w ls' = loadCodeFromWorkspace w ls"
proof -
  define ident where "ident = or_else wid (''workspace-'' @ toString now)"
  show ?thesis
  proof (cases "setItem ls (ident @ ''-code'') c")
    case (Inl e)
    with assms(1) show ?thesis by (simp add: saveCodeToWorkspace_def Let_def ident_def)
  next
    case a: (Inr ls1)
    have l1: "loadCodeFromWorkspace w ls1 = loadCodeFromWorkspace w ls"
      using setItem_other_workspace[OF a] assms(2) by (simp add: ident_def)
    show ?thesis
    proof (cases "setItem ls1 (ident @ ''-fileName'') fn")
      case (Inl e)
      with a assms(1) l1 show ?thesis by (simp add: saveCodeToWorkspace_def Let_def ident_def)
    next
      case b: (Inr ls2)
      have "loadCodeFromWorkspace w ls2 = loadCodeFromWorkspace w ls1"
        using setItem_other_workspace[OF b] assms(2) by (simp add: ident_def)
      with a b assms(1) l1 show ?thesis by (simp add: saveCodeToWorkspace_def Let_def ident_def)
    qed
  qed
qed

lemma open_other:
  assumes "openIDEWorkspace now md b = (r, b')"
    and "w \<noteq> ''workspace-'' @ toString now"
  shows "loadCodeFromWorkspace w (storage b') = loadCodeFromWorkspace w (storage b)"
proof -
  define ident where "ident = ''workspace-'' @ toString now"
  show ?thesis
  proof (cases "md \<noteq> None \<and> truthy (code (the md))")
    case False
    with assms(1) show ?thesis
      by (auto simp: openIDEWorkspace_def Let_def split: option.splits)
  next
    case True
    then obtain m where m: "md = Some m" "truthy (code m)" by auto
    show ?thesis
    proof (cases "setItem (storage b) (ident @ ''-code'') (the (code m))")
      case (Inl e)
      with assms(1) m show ?thesis by (auto simp: openIDEWorkspace_def Let_def ident_def)
    next
      case a: (Inr ls1)
      have l1: "loadCodeFromWorkspace w ls1 = loadCodeFromWorkspace w (storage b)"
        using setItem_other_workspace[OF a] assms(2) by (simp add: ident_def)
      show ?thesis
      proof (cases "setItem ls1 (ident @ ''-fileName'') (or_else (fileName m) ''app.tsx'')")
        case (Inl e)
        with a assms(1) m l1 show ?thesis by (auto simp: openIDEWorkspace_def Let_def ident_def)
      next
        case c: (Inr ls2)
        have "loadCodeFromWorkspace w ls2 = loadCodeFromWorkspace w ls1"
          using setItem_other_workspace[OF c] assms(2) by (simp add: ident_def)
        with a c assms(1) m l1 show ?thesis by (auto simp: openIDEWorkspace_def Let_def ident_def)
      qed
    qed
  qed
qed

lemma saved_ids_not_found:
  "saved_ids ls I \<Longrightarrow> w \<notin> I \<Longrightarrow> loadCodeFromWorkspace w ls = (None, None)"
proof (induction rule: saved_ids.induct)
  case (fresh ls)
  then show ?case by (simp add: loadCodeFromWorkspace_def getItem_def)
next
  case (save ls I now c fn wid r ls')
  then show ?case using save_other[of now c fn wid ls r ls' w] by simp
next
  case (opened_ide b I now md r b')
  then show ?case using open_other[of now md b r b' w] by simp
qed

lemma or_else_nonempty: "d \<noteq> [] \<Longrightarrow> or_else x d \<noteq> []"
  by (auto simp: or_else_def split: option.splits)

lemma or_else_Some: "i \<noteq> [] \<Longrightarrow> or_else (Some i) d = i"
  by (simp add: or_else_def)

lemma or_else_truthy: "truthy x \<Longrightarrow> x = Some (or_else x d)"
  by (auto simp: or_else_def truthy_def split: option.splits)

lemma save_ident_nonempty:
  assumes "saveCodeToWorkspace now c fn wid ls = (Inr ident, ls')"
  shows "ident \<noteq> []"
  using save_Inr(1)[OF assms] or_else_nonempty[of "''workspace-'' @ toString now" wid] by simp

lemma fresh_id_is_the_clock_reading:
  "fst (saveCodeToWorkspace now c fn None ls) = Inr i \<Longrightarrow> i = ''workspace-'' @ toString now"
  "fst (openIDEWorkspace now md b) = Inr info \<Longrightarrow> workspaceId info = ''workspace-'' @ toString now"
  by (auto simp: saveCodeToWorkspace_def openIDEWorkspace_def or_else_def Let_def
      split: sum.splits option.splits if_splits)

text \<open>
  C1. The claim: the workspace identities returned by any sequence of allocations in
  one run are pairwise distinct. The code builds the identity from the millisecond
  clock alone, so two allocations that read the same clock value return the same
  identity. Here two calls of \<open>saveCodeToWorkspace\<close> without an identity and a call of
  \<open>openIDEWorkspace\<close> all run while the clock reads 1700000000000: all three return
  \<open>workspace-1700000000000\<close>, and the second save replaces what the first stored.
\<close>

theorem workspace_ids_collide_within_a_millisecond:
  "saveCodeToWorkspace 1700000000000 ''let x = 1'' ''a.tsx'' None store0 =
     (Inr ''workspace-1700000000000'', store_ws)
   \<and> saveCodeToWorkspace 1700000000000 ''let y = 2'' ''b.tsx'' None store_ws =
     (Inr ''workspace-1700000000000'', store_ws2)
   \<and> openIDEWorkspace 1700000000000 None \<lparr>storage = store_ws2, opened = []\<rparr> =
     (Inr \<lparr>workspaceId = ''workspace-1700000000000'',
           url = ''https://vscode.dev/?folder=/tmp/workspace-1700000000000'',
           metadata = None\<rparr>,
      \<lparr>storage = store_ws2,
       opened = [''https://vscode.dev/?folder=/tmp/workspace-1700000000000'']\<rparr>)"
  by (simp add: openIDEWorkspace_def saveCodeToWorkspace_def toString_example or_else_def
      setItem_def usage_def store0_def store_ws_def store_ws2_def Let_def)

text \<open>
  C4, as stated: \<open>saveCode\<close> never raises; on a full or unavailable store it is a
  silent no-op. The code calls \<open>setItem\<close> with no handler around it: on a full store
  and on a disabled store the \<open>QuotaExceededError\<close> reaches the caller.
\<close>

theorem saveCode_raises_on_full_or_disabled_store:
  "saveCodeToWorkspace 0 ''let x = 1'' ''a.tsx'' (Some ''w1'') full_store =
     (Inl QuotaExceededError, full_store)
   \<and> saveCodeToWorkspace 0 ''let x = 1'' ''a.tsx'' (Some ''w1'') disabled_store =
     (Inl QuotaExceededError, disabled_store)"
  by (simp add: saveCodeToWorkspace_def or_else_def setItem_def usage_def
      full_store_def disabled_store_def)

text \<open>
  C4, amended: \<open>saveCode\<close> returns normally exactly when the store accepts both of
  its writes (the code entry, then the file name entry). When the store refuses a
  write, the only exception that reaches the caller is the store's
  \<open>QuotaExceededError\<close>; on a disabled store it does so with the store unchanged.
\<close>

theorem saveCode_returns_iff_store_accepts:
  "(disabled ls \<longrightarrow> saveCodeToWorkspace now c fn wid ls = (Inl QuotaExceededError, ls))
   \<and> (fst (saveCodeToWorkspace now c fn wid ls) = Inl e \<longrightarrow> e = QuotaExceededError)
   \<and> ((\<exists>i. fst (saveCodeToWorkspace now c fn wid ls) = Inr i) \<longleftrightarrow>
        (\<exists>ls1 ls2.
           setItem ls (or_else wid (''workspace-'' @ toString now) @ ''-code'') c = Inr ls1 \<and>
           setItem ls1 (or_else wid (''workspace-'' @ toString now) @ ''-fileName'') fn = Inr ls2))"
proof (intro conjI impI)
  assume "disabled ls"
  then show "saveCodeToWorkspace now c fn wid ls = (Inl QuotaExceededError, ls)"
    by (simp add: saveCodeToWorkspace_def setItem_def Let_def)
next
  assume "fst (saveCodeToWorkspace now c fn wid ls) = Inl e"
  then show "e = QuotaExceededError"
    by (auto simp: saveCodeToWorkspace_def Let_def split: sum.splits dest: setItem_Inl)
next
  show "(\<exists>i. fst (saveCodeToWorkspace now c fn wid ls) = Inr i) \<longleftrightarrow>
        (\<exists>ls1 ls2.
           setItem ls (or_else wid (''workspace-'' @ toString now) @ ''-code'') c = Inr ls1 \<and>
           setItem ls1 (or_else wid (''workspace-'' @ toString now) @ ''-fileName'') fn = Inr ls2)"
    by (auto simp: saveCodeToWorkspace_def Let_def split: sum.splits)
qed

theorem saveCode_returns_iff_store_accepts_witness:
  "disabled disabled_store
   \<and> saveCodeToWorkspace 0 ''let x = 1'' ''a.tsx'' (Some ''w1'') disabled_store =
       (Inl QuotaExceededError, disabled_store)
   \<and> fst (saveCodeToWorkspace 0 ''let x = 1'' ''a.tsx'' (Some ''w1'') full_store) =
       Inl QuotaExceededError
   \<and> (\<exists>i. fst (saveCodeToWorkspace 0 ''let x = 1'' ''a.tsx'' (Some ''w1'') store0) = Inr i)"
proof -
  have d: "disabled disabled_store" by (simp add: disabled_store_def)
  have a: "setItem store0 (or_else (Some ''w1'') (''workspace-'' @ toString 0) @ ''-code'')
             ''let x = 1'' =
           Inr \<lparr>entries = [(''w1-code'', ''let x = 1'')], quota = 1000, disabled = False\<rparr>"
    by (simp add: setItem_def or_else_def usage_def store0_def)
  have b: "setItem \<lparr>entries = [(''w1-code'', ''let x = 1'')], quota = 1000, disabled = False\<rparr>
             (or_else (Some ''w1'') (''workspace-'' @ toString 0) @ ''-fileName'') ''a.tsx'' =
           Inr store1"
    by (simp add: setItem_def or_else_def usage_def store1_def)
  have f: "fst (saveCodeToWorkspace 0 ''let x = 1'' ''a.tsx'' (Some ''w1'') full_store) =
           Inl QuotaExceededError"
    by (simp add: saveCodeToWorkspace_def or_else_def setItem_def usage_def full_store_def)
  from saveCode_returns_iff_store_accepts
         [of disabled_store 0 "''let x = 1''" "''a.tsx''" "Some ''w1''" QuotaExceededError] d
  have 1: "saveCodeToWorkspace 0 ''let x = 1'' ''a.tsx'' (Some ''w1'') disabled_store =
       (Inl QuotaExceededError, disabled_store)" by blast
  from saveCode_returns_iff_store_accepts
         [of store0 0 "''let x = 1''" "''a.tsx''" "Some ''w1''" QuotaExceededError] a b
  have 2: "\<exists>i. fst (saveCodeToWorkspace 0 ''let x = 1'' ''a.tsx'' (Some ''w1'') store0) = Inr i"
    by blast
  from d 1 f 2 show ?thesis by blast
qed

text \<open>
  C6, as stated: after \<open>saveCode(id, f1, s1)\<close> and then \<open>saveCode(id, f2, s2)\<close> with
  \<open>f1 \<noteq> f2\<close>, the source saved under \<open>f1\<close> is still retrievable as \<open>s1\<close>. The code
  keeps one code entry and one file name entry per workspace: after saving \<open>a.tsx\<close>
  and then \<open>b.tsx\<close> under \<open>w1\<close>, the store holds the second source only and
  \<open>loadCode\<close> returns it.
\<close>

theorem saveCode_second_file_replaces_first:
  "saveCodeToWorkspace 0 ''let x = 1'' ''a.tsx'' (Some ''w1'') store0 = (Inr ''w1'', store1)
   \<and> saveCodeToWorkspace 0 ''let y = 2'' ''b.tsx'' (Some ''w1'') store1 = (Inr ''w1'', store2)
   \<and> entries store2 = [(''w1-code'', ''let y = 2''), (''w1-fileName'', ''b.tsx'')]
   \<and> loadCodeFromWorkspace ''w1'' store2 = (Some ''let y = 2'', Some ''b.tsx'')
   \<and> fst (loadCodeFromWorkspace ''w1'' store2) \<noteq> Some ''let x = 1''"
  by (simp add: saveCodeToWorkspace_def or_else_def setItem_def usage_def
      loadCodeFromWorkspace_def getItem_def store0_def store1_def store2_def)

text \<open>
  C6, amended: a workspace holds a single slot, the pair of a source and a file name.
  A save under the identity that an earlier save returned replaces the slot, whatever
  the two file names are: \<open>loadCode\<close> then returns the later source and file name.
  The frame holds between workspaces: a save, also one that ends in an exception,
  leaves what \<open>loadCode\<close> returns for every other workspace identity unchanged.
\<close>

theorem saveCode_single_slot_per_workspace:
  "(saveCodeToWorkspace n1 s1 f1 wid ls = (Inr i, ls1) \<and>
    saveCodeToWorkspace n2 s2 f2 (Some i) ls1 = (Inr j, ls2) \<longrightarrow>
      j = i \<and> loadCodeFromWorkspace i ls2 = (Some s2, Some f2))
   \<and> (saveCodeToWorkspace now c fn wid' st = (r, st') \<and>
      w \<noteq> or_else wid' (''workspace-'' @ toString now) \<longrightarrow>
      loadCodeFromWorkspace w st' = loadCodeFromWorkspace w st)"
proof (intro conjI impI)
  assume h: "saveCodeToWorkspace n1 s1 f1 wid ls = (Inr i, ls1) \<and>
    saveCodeToWorkspace n2 s2 f2 (Some i) ls1 = (Inr j, ls2)"
  then have "i \<noteq> []" using save_ident_nonempty by blast
  then have "or_else (Some i) (''workspace-'' @ toString n2) = i" by (rule or_else_Some)
  with h have ji: "j = i" using save_Inr(1)[of n2 s2 f2 "Some i" ls1 j ls2] by simp
  from h have "loadCodeFromWorkspace j ls2 = (Some s2, Some f2)" using save_load by blast
  with ji show "j = i" and "loadCodeFromWorkspace i ls2 = (Some s2, Some f2)" by simp_all
next
  assume "saveCodeToWorkspace now c fn wid' st = (r, st') \<and>
      w \<noteq> or_else wid' (''workspace-'' @ toString now)"
  then show "loadCodeFromWorkspace w st' = loadCodeFromWorkspace w st"
    using save_other by blast
qed

theorem saveCode_single_slot_per_workspace_witness:
  "saveCodeToWorkspace 0 ''let x = 1'' ''a.tsx'' (Some ''w1'') store0 = (Inr ''w1'', store1)
   \<and> saveCodeToWorkspace 0 ''let y = 2'' ''b.tsx'' (Some ''w1'') store1 = (Inr ''w1'', store2)
   \<and> loadCodeFromWorkspace ''w1'' store2 = (Some ''let y = 2'', Some ''b.tsx'')
   \<and> ''w2'' \<noteq> or_else (Some ''w1'') (''workspace-'' @ toString 0)
   \<and> loadCodeFromWorkspace ''w2'' store2 = loadCodeFromWorkspace ''w2'' store1"
proof -
  have a: "saveCodeToWorkspace 0 ''let x = 1'' ''a.tsx'' (Some ''w1'') store0 = (Inr ''w1'', store1)"
    by (simp add: saveCodeToWorkspace_def or_else_def setItem_def usage_def store0_def store1_def)
  have b: "saveCodeToWorkspace 0 ''let y = 2'' ''b.tsx'' (Some ''w1'') store1 = (Inr ''w1'', store2)"
    by (simp add: saveCodeToWorkspace_def or_else_def setItem_def usage_def store1_def store2_def)
  have n: "''w2'' \<noteq> or_else (Some ''w1'') (''workspace-'' @ toString 0)"
    by (simp add: or_else_def)
  from saveCode_single_slot_per_workspace
         [of 0 "''let x = 1''" "''a.tsx''" "Some ''w1''" store0 "''w1''" store1
             0 "''let y = 2''" "''b.tsx''" "''w1''" store2
             0 "''let y = 2''" "''b.tsx''" "Some ''w1''" store1 "Inr ''w1''" store2 "''w2''"]
       a b n
  show ?thesis by blast
qed

text \<open>
  C7, as stated: for every workspace id, file name and source, \<open>saveCode\<close> followed by
  \<open>loadCode\<close> with the same workspace id and file name returns the saved source, and
  \<open>loadCode\<close> on an id or file name under which nothing was saved returns the empty
  result. The code fails both halves. A save with the empty string as its id stores
  under a name built from the clock, so \<open>loadCode\<close> with the same (empty) id finds
  nothing. And \<open>loadCode\<close> takes no file name: after \<open>a.tsx\<close> is saved under \<open>w1\<close>, a
  lookup in \<open>w1\<close> for any other file name, under which nothing was ever saved, is the
  same call and returns the stored source and \<open>a.tsx\<close>, not the empty result.
\<close>

theorem loadCode_ignores_file_name_and_empty_id:
  "saveCodeToWorkspace 0 ''let x = 1'' ''a.tsx'' (Some []) store0 = (Inr ''workspace-0'', store_w0)
   \<and> loadCodeFromWorkspace [] store_w0 = (None, None)
   \<and> saveCodeToWorkspace 0 ''let x = 1'' ''a.tsx'' (Some ''w1'') store0 = (Inr ''w1'', store1)
   \<and> loadCodeFromWorkspace ''w1'' store1 = (Some ''let x = 1'', Some ''a.tsx'')
   \<and> loadCodeFromWorkspace ''w1'' store1 \<noteq> (None, None)"
  by (simp add: saveCodeToWorkspace_def or_else_def setItem_def usage_def toString.simps
      digit_char_def loadCodeFromWorkspace_def getItem_def store0_def store_w0_def store1_def)

text \<open>
  C7, amended. Round trip: when \<open>saveCode\<close> has returned, \<open>loadCode\<close> with the workspace
  identity it returned gives back exactly the saved source and file name; the identity
  returned is the caller's own whenever the caller passed a non-empty one (an empty
  string counts as none, and a fresh identity is returned). Absence is per workspace
  identity, since \<open>loadCode\<close> takes no file name: in every store reached from an empty
  one by calls of \<open>saveCodeToWorkspace\<close> and \<open>openIDEWorkspace\<close>, \<open>loadCode\<close> with an
  identity that no call has written under returns the empty result (both fields
  \<open>null\<close>); \<open>loadCode\<close> has no exception to raise.
\<close>

theorem saveCode_loadCode_roundtrip:
  "(saveCodeToWorkspace now c fn wid ls = (Inr ident, ls') \<longrightarrow>
      loadCodeFromWorkspace ident ls' = (Some c, Some fn) \<and> (truthy wid \<longrightarrow> wid = Some ident))
   \<and> (saved_ids st I \<and> w \<notin> I \<longrightarrow> loadCodeFromWorkspace w st = (None, None))"
proof (intro conjI impI)
  assume h: "saveCodeToWorkspace now c fn wid ls = (Inr ident, ls')"
  then show "loadCodeFromWorkspace ident ls' = (Some c, Some fn)" by (rule save_load)
  assume "truthy wid"
  then show "wid = Some ident" using save_Inr(1)[OF h] or_else_truthy by simp
next
  assume "saved_ids st I \<and> w \<notin> I"
  then show "loadCodeFromWorkspace w st = (None, None)" using saved_ids_not_found by blast
qed

theorem saveCode_loadCode_roundtrip_witness:
  "saveCodeToWorkspace 0 ''let x = 1'' ''a.tsx'' (Some ''w1'') store0 = (Inr ''w1'', store1)
   \<and> loadCodeFromWorkspace ''w1'' store1 = (Some ''let x = 1'', Some ''a.tsx'')
   \<and> truthy (Some ''w1'')
   \<and> saved_ids store1 {''w1''} \<and> ''w2'' \<notin> {''w1''}
   \<and> loadCodeFromWorkspace ''w2'' store1 = (None, None)"
proof -
  have a: "saveCodeToWorkspace 0 ''let x = 1'' ''a.tsx'' (Some ''w1'') store0 = (Inr ''w1'', store1)"
    by (simp add: saveCodeToWorkspace_def or_else_def setItem_def usage_def store0_def store1_def)
  have t: "truthy (Some ''w1'')" by (simp add: truthy_def)
  have "saved_ids store0 {}" by (rule saved_ids.fresh) (simp add: store0_def)
  from saved_ids.save[OF this a] have s: "saved_ids store1 {''w1''}" by (simp add: or_else_def)
  have n: "''w2'' \<notin> {''w1''}" by simp
  from saveCode_loadCode_roundtrip
         [of 0 "''let x = 1''" "''a.tsx''" "Some ''w1''" store0 "''w1''" store1 store1 "{''w1''}" "''w2''"]
       a t s n
  show ?thesis by blast
qed

section \<open>Properties of the chat endpoint\<close>

lemma startsWith_iff_prefix: "startsWith s p \<longleftrightarrow> prefix p s"
  by (metis startsWith_def prefix_def append_eq_conv_conj append_take_drop_id)

lemma includes_str_iff_sublist: "includes_str s p \<longleftrightarrow> sublist p s"
  by (induction s) (auto simp: includes_str.simps startsWith_iff_prefix sublist_Cons_right)

lemma prefix_into_takeWhile:
  assumes "prefix b xs" and "\<forall>c\<in>set b. P c"
  shows "prefix b (takeWhile P xs)"
proof -
  from assms(1) obtain r where "xs = b @ r" by (auto simp: prefix_def)
  with assms(2) show ?thesis by (simp add: takeWhile_append2)
qed

lemma url_body_longest:
  assumes "prefix (p @ b) s" and "\<not> list_ex isSpace b" and "length p = n"
  shows "length b \<le> length (takeWhile (\<lambda>c. \<not> isSpace c) (drop n s))"
proof -
  from assms(1) obtain r where "s = p @ b @ r" by (auto simp: prefix_def)
  with assms(3) have "prefix b (drop n s)" by auto
  moreover from assms(2) have "\<forall>c\<in>set b. \<not> isSpace c" by (simp add: list_ex_iff)
  ultimately have "prefix b (takeWhile (\<lambda>c. \<not> isSpace c) (drop n s))"
    by (rule prefix_into_takeWhile)
  then show ?thesis by (rule prefix_length_le)
qed

lemma https_not_http:
  assumes "prefix ''https://'' s" and "prefix (''http://'' @ b) s"
  shows False
proof -
  from assms(1) obtain r where r: "s = ''https://'' @ r" by (auto simp: prefix_def)
  from assms(2) obtain r' where "s = ''http://'' @ b @ r'" by (auto simp: prefix_def)
  with r show False by simp
qed

lemma http_not_https:
  assumes "prefix ''http://'' s" and "prefix (''https://'' @ b) s"
  shows False
proof -
  from assms(1) obtain r where r: "s = ''http://'' @ r" by (auto simp: prefix_def)
  from assms(2) obtain r' where "s = ''https://'' @ b @ r'" by (auto simp: prefix_def)
  with r show False by simp
qed

lemma takeWhile_nonspace: "\<not> list_ex isSpace (takeWhile (\<lambda>c. \<not> isSpace c) xs)"
  by (auto simp: list_ex_iff dest: set_takeWhileD)

lemma prefix_scheme:
  assumes "prefix p s" and "length p = n"
  shows "prefix (p @ takeWhile P (drop n s)) s"
proof -
  from assms(1) obtain r where r: "s = p @ r" by (auto simp: prefix_def)
  with assms(2) have "drop n s = r" by auto
  with r show ?thesis by (simp add: takeWhile_is_prefix)
qed

lemma url_match_Some:
  assumes "url_match s = Some u"
  shows "matches_url u" and "prefix u s"
    and "\<And>v. matches_url v \<Longrightarrow> prefix v s \<Longrightarrow> length v \<le> length u"
proof -
  let ?t8 = "takeWhile (\<lambda>c. \<not> isSpace c) (drop 8 s)"
  let ?t7 = "takeWhile (\<lambda>c. \<not> isSpace c) (drop 7 s)"
  from assms consider
      (https) "prefix ''https://'' s" "?t8 \<noteq> []" "u = ''https://'' @ ?t8"
    | (http) "prefix ''http://'' s" "?t7 \<noteq> []" "u = ''http://'' @ ?t7"
         "\<not> (prefix ''https://'' s \<and> ?t8 \<noteq> [])"
    by (auto simp: url_match_def startsWith_iff_prefix split: if_splits)
  then have "matches_url u \<and> prefix u s \<and> (\<forall>v. matches_url v \<longrightarrow> prefix v s \<longrightarrow> length v \<le> length u)"
  proof cases
    case https
    have m: "matches_url u"
      unfolding matches_url_def using https(2,3) takeWhile_nonspace by blast
    have p: "prefix u s" using prefix_scheme[OF https(1), of 8 "\<lambda>c. \<not> isSpace c"] https(3) by simp
    have l: "length v \<le> length u" if "matches_url v" "prefix v s" for v
    proof -
      from that(1) obtain b where b: "b \<noteq> []" "\<not> list_ex isSpace b"
        "v = ''http://'' @ b \<or> v = ''https://'' @ b" by (auto simp: matches_url_def)
      from b(3) that(2) https(1) https_not_http have v: "v = ''https://'' @ b" by blast
      with that(2) b(2) have "length b \<le> length ?t8"
        using url_body_longest[of "''https://''" b s 8] by simp
      with v https(3) show ?thesis by simp
    qed
    from m p l show ?thesis by blast
  next
    case http
    have m: "matches_url u"
      unfolding matches_url_def using http(2,3) takeWhile_nonspace by blast
    have p: "prefix u s" using prefix_scheme[OF http(1), of 7 "\<lambda>c. \<not> isSpace c"] http(3) by simp
    have l: "length v \<le> length u" if "matches_url v" "prefix v s" for v
    proof -
      from that(1) obtain b where b: "b \<noteq> []" "\<not> list_ex isSpace b"
        "v = ''http://'' @ b \<or> v = ''https://'' @ b" by (auto simp: matches_url_def)
      from b(3) that(2) http(1) http_not_https have v: "v = ''http://'' @ b" by blast
      with that(2) b(2) have "length b \<le> length ?t7"
        using url_body_longest[of "''http://''" b s 7] by simp
      with v http(3) show ?thesis by simp
    qed
    from m p l show ?thesis by blast
  qed
  then show "matches_url u" and "prefix u s"
    and "\<And>v. matches_url v \<Longrightarrow> prefix v s \<Longrightarrow> length v \<le> length u" by blast+
qed

lemma url_match_None:
  assumes "url_match s = None" and "matches_url v" and "prefix v s"
  shows False
proof -
  from assms(2) obtain b where b: "b \<noteq> []" "\<not> list_ex isSpace b"
    "v = ''http://'' @ b \<or> v = ''https://'' @ b" by (auto simp: matches_url_def)
  from b(3) show False
  proof
    assume v: "v = ''http://'' @ b"
    with assms(3) have p: "prefix ''http://'' s" using append_prefixD by blast
    from v assms(3) b(2) have "length b \<le> length (takeWhile (\<lambda>c. \<not> isSpace c) (drop 7 s))"
      using url_body_longest[of "''http://''" b s 7] by simp
    with b(1) have "takeWhile (\<lambda>c. \<not> isSpace c) (drop 7 s) \<noteq> []" by auto
    with p assms(1) show False by (auto simp: url_match_def startsWith_iff_prefix split: if_splits)
  next
    assume v: "v = ''https://'' @ b"
    with assms(3) have p: "prefix ''https://'' s" using append_prefixD by blast
    from v assms(3) b(2) have "length b \<le> length (takeWhile (\<lambda>c. \<not> isSpace c) (drop 8 s))"
      using url_body_longest[of "''https://''" b s 8] by simp
    with b(1) have "takeWhile (\<lambda>c. \<not> isSpace c) (drop 8 s) \<noteq> []" by auto
    with p assms(1) show False by (auto simp: url_match_def startsWith_iff_prefix split: if_splits)
  qed
qed


lemma matches_url_nonempty: "matches_url v \<Longrightarrow> v \<noteq> []"
  by (auto simp: matches_url_def)

lemma url_match_at_Suc: "url_match_at (c # cs) (Suc i) v \<longleftrightarrow> url_match_at cs i v"
  by (simp add: url_match_at_def)

lemma url_match_at_0: "url_match_at m 0 v \<longleftrightarrow> prefix v m \<and> matches_url v"
  by (simp add: url_match_at_def)

lemma first_url_None: "first_url m = None \<Longrightarrow> \<not> url_match_at m i v"
proof (induction m arbitrary: i)
  case Nil
  show ?case using matches_url_nonempty by (auto simp: url_match_at_def)
next
  case (Cons c cs)
  from Cons.prems have n: "url_match (c # cs) = None" and r: "first_url cs = None"
    by (auto split: option.splits)
  show ?case
  proof (cases i)
    case 0
    with n show ?thesis using url_match_None by (auto simp: url_match_at_0)
  next
    case (Suc k)
    with Cons.IH[OF r] show ?thesis by (simp add: url_match_at_Suc)
  qed
qed

lemma first_url_Some:
  "first_url m = Some u \<Longrightarrow>
     \<exists>i. url_match_at m i u \<and> \<not> (\<exists>j v. j < i \<and> url_match_at m j v) \<and>
         \<not> (\<exists>v. url_match_at m i v \<and> length u < length v)"
proof (induction m)
  case Nil
  then show ?case by simp
next
  case (Cons c cs)
  show ?case
  proof (cases "url_match (c # cs)")
    case (Some u')
    with Cons.prems have u: "url_match (c # cs) = Some u" by simp
    have "url_match_at (c # cs) 0 u"
      using url_match_Some(1,2)[OF u] by (simp add: url_match_at_0)
    moreover have "\<not> (\<exists>v. url_match_at (c # cs) 0 v \<and> length u < length v)"
      using url_match_Some(3)[OF u] by (auto simp: url_match_at_0 simp flip: not_le)
    ultimately show ?thesis by blast
  next
    case None
    with Cons.prems have "first_url cs = Some u" by simp
    from Cons.IH[OF this] obtain i where i: "url_match_at cs i u"
      "\<not> (\<exists>j v. j < i \<and> url_match_at cs j v)"
      "\<not> (\<exists>v. url_match_at cs i v \<and> length u < length v)" by blast
    have "\<not> url_match_at (c # cs) j v" if "j < Suc i" for j v
    proof (cases j)
      case 0
      with None show ?thesis using url_match_None by (auto simp: url_match_at_0)
    next
      case (Suc k)
      with that i(2) show ?thesis by (auto simp: url_match_at_Suc)
    qed
    with i(1,3) have "url_match_at (c # cs) (Suc i) u \<and>
        \<not> (\<exists>j v. j < Suc i \<and> url_match_at (c # cs) j v) \<and>
        \<not> (\<exists>v. url_match_at (c # cs) (Suc i) v \<and> length u < length v)"
      by (simp add: url_match_at_Suc)
    then show ?thesis by blast
  qed
qed

lemma extractUrl_first_match: "first_url_match m (extractUrl m)"
proof (cases "first_url m")
  case None
  then show ?thesis using first_url_None by (simp add: first_url_match_def extractUrl_def)
next
  case (Some u)
  then show ?thesis using first_url_Some[OF Some] by (simp add: first_url_match_def extractUrl_def)
qed

lemma first_url_match_unique:
  assumes "first_url_match m u" and "first_url_match m u'"
  shows "u = u'"
proof -
  have same: "a = b"
    if a: "url_match_at m i a" "\<not> (\<exists>j v. j < i \<and> url_match_at m j v)"
          "\<not> (\<exists>v. url_match_at m i v \<and> length a < length v)"
      and b: "url_match_at m k b" "\<not> (\<exists>j v. j < k \<and> url_match_at m j v)"
          "\<not> (\<exists>v. url_match_at m k v \<and> length b < length v)"
    for i k a b
  proof -
    from a(1,2) b(1,2) have ik: "i = k" by (meson linorder_neqE_nat)
    with a(1,3) b(1,3) have "length a = length b" by (meson linorder_neqE_nat)
    moreover from a(1) b(1) ik have "prefix a (drop i m)" "prefix b (drop i m)"
      by (simp_all add: url_match_at_def)
    ultimately show ?thesis by (metis prefix_length_prefix prefix_order.antisym order_refl)
  qed
  from assms show ?thesis unfolding first_url_match_def using same by blast
qed

lemma classify_total:
  "\<exists>n md. classify (Some m) fs = Inr (n, md) \<and> (\<exists>c. category_of (type_tag md) = Some c)"
  by (simp add: classify_def category_of_def no_metadata_def Let_def)

lemma POST_answers:
  assumes "cfg ''venice'' = Some v" and "classify (message req) (files req) = Inr (n, md)"
  shows "\<exists>r. POST cfg req = Ok r \<and> response r = n \<and> type_tag (res_metadata r) = type_tag md"
  using assms by (auto simp: POST_def Let_def split: option.splits)

text \<open>
  C2. For every message string and every list of file descriptors, absent or empty
  included, the classification returns a narrative and a metadata object whose tag is
  one of the nine categories (the tag of each category is given by \<open>category_of\<close>;
  the category \<open>none\<close> is the metadata without the field \<open>type\<close>). Whenever the table
  of models has its default entry \<open>venice\<close>, the endpoint answers with status 200 and
  the metadata of the answer carries that one category.
\<close>

theorem classification_is_total:
  "(\<exists>n md. classify (Some m) fs = Inr (n, md) \<and> (\<exists>c. category_of (type_tag md) = Some c))
   \<and> (cfg ''venice'' \<noteq> None \<longrightarrow>
        (\<exists>r c. POST cfg \<lparr>message = Some m, model = mo, history = h, files = fs\<rparr> = Ok r \<and>
               category_of (type_tag (res_metadata r)) = Some c))"
proof (intro conjI impI)
  show "\<exists>n md. classify (Some m) fs = Inr (n, md) \<and> (\<exists>c. category_of (type_tag md) = Some c)"
    by (rule classify_total)
next
  assume "cfg ''venice'' \<noteq> None"
  then obtain v where v: "cfg ''venice'' = Some v" by auto
  obtain n md c where c: "classify (Some m) fs = Inr (n, md)" "category_of (type_tag md) = Some c"
    using classify_total by blast
  from POST_answers[of cfg v "\<lparr>message = Some m, model = mo, history = h, files = fs\<rparr>" n md]
       v c
  show "\<exists>r c. POST cfg \<lparr>message = Some m, model = mo, history = h, files = fs\<rparr> = Ok r \<and>
               category_of (type_tag (res_metadata r)) = Some c"
    by auto
qed

theorem classification_is_total_witness:
  "example_configs ''venice'' \<noteq> None
   \<and> (\<exists>r c. POST example_configs
               \<lparr>message = Some ''fix my code'', model = None, history = [], files = Some []\<rparr> = Ok r \<and>
             category_of (type_tag (res_metadata r)) = Some c)"
proof -
  have e: "example_configs ''venice'' \<noteq> None" by (simp add: example_configs_def)
  from classification_is_total
         [of "''fix my code''" "Some []" example_configs None "[]"] e
  show ?thesis by blast
qed

lemma classify_clone:
  assumes "(fs = None \<or> fs = Some []) \<and> includes_str (toLowerCase m) ''clone'' \<and>
    (includes_str m ''http'' \<or> includes_str m ''github'')"
  shows "classify (Some m) fs =
      Inr (if includes_str m ''github.com'' then GithubNarrative else WebsiteNarrative,
           no_metadata\<lparr>openIDE := Some True,
                       type_tag := Some (if includes_str m ''github.com'' then ''github''
                                         else ''website''),
                       md_url := Some (extractUrl m)\<rparr>)"
  using assms by (auto simp: classify_def)

text \<open>
  C3, as stated: whenever the lower-cased message contains \<open>clone\<close> and contains
  \<open>http\<close> or \<open>github\<close>, the clone branch is taken, with the category
  \<open>github-clone\<close> when the lower-cased message contains \<open>github.com\<close>. The code
  lower-cases the message for \<open>clone\<close> only; \<open>http\<close>, \<open>github\<close> and \<open>github.com\<close> are
  looked up in the message as written. A message with \<open>HTTP\<close> in capitals gets the
  category \<open>none\<close>, and one with \<open>GitHub.com\<close> gets \<open>website-clone\<close>. An attached
  file decides the category before the message is looked at.
\<close>

theorem clone_keywords_are_case_sensitive:
  "includes_str (toLowerCase ''clone HTTP://EXAMPLE.COM'') ''clone''
   \<and> includes_str (toLowerCase ''clone HTTP://EXAMPLE.COM'') ''http''
   \<and> classify (Some ''clone HTTP://EXAMPLE.COM'') None = Inr (HelpNarrative, no_metadata)
   \<and> category_of (type_tag no_metadata) = Some NoCategory
   \<and> includes_str (toLowerCase ''clone http://GitHub.com/acme/widgets'') ''github.com''
   \<and> classify (Some ''clone http://GitHub.com/acme/widgets'') None =
       Inr (WebsiteNarrative,
            no_metadata\<lparr>openIDE := Some True, type_tag := Some ''website'',
                        md_url := Some ''http://GitHub.com/acme/widgets''\<rparr>)
   \<and> classify (Some ''clone https://github.com/acme/widgets'') (Some [logo_png]) =
       Inr (ImagesNarrative ''logo.png'',
            no_metadata\<lparr>openIDE := Some True, type_tag := Some ''image-analysis'',
                        md_files := Some [logo_png]\<rparr>)"
  by (simp add: logo_png_def classify_def toLowerCase_def toLowerCase_char_def char_of_def bit_Suc_0_iff
      includes_str.simps startsWith_def extractUrl_def url_match_def isSpace_def
      category_of_def no_metadata_def)

text \<open>
  C3, amended: for every message sent without files whose lower-cased text contains
  \<open>clone\<close> and whose text as written contains \<open>http\<close> or \<open>github\<close>, the
  classification takes the clone branch with \<open>openIDE\<close> true: the category is
  \<open>github-clone\<close> when the message as written contains \<open>github.com\<close> and
  \<open>website-clone\<close> otherwise, and the parameter \<open>url\<close> is the first match of
  \<^verbatim>\<open>https?://\S+\<close> in the message, the empty string when there is none. The message
  \<open>clone https://github.com/acme/widgets\<close> gets \<open>github-clone\<close>, that URL, and
  \<open>openIDE\<close> true.
\<close>

theorem clone_branch:
  "((fs = None \<or> fs = Some []) \<and> includes_str (toLowerCase m) ''clone'' \<and>
    (includes_str m ''http'' \<or> includes_str m ''github'') \<longrightarrow>
      (\<exists>n md u. classify (Some m) fs = Inr (n, md) \<and> openIDE md = Some True \<and>
         category_of (type_tag md) =
           Some (if includes_str m ''github.com'' then GithubClone else WebsiteClone) \<and>
         md_url md = Some u \<and> first_url_match m u))
   \<and> classify (Some ''clone https://github.com/acme/widgets'') None =
       Inr (GithubNarrative,
            no_metadata\<lparr>openIDE := Some True, type_tag := Some ''github'',
                        md_url := Some ''https://github.com/acme/widgets''\<rparr>)"
proof (intro conjI impI)
  assume h: "(fs = None \<or> fs = Some []) \<and> includes_str (toLowerCase m) ''clone'' \<and>
    (includes_str m ''http'' \<or> includes_str m ''github'')"
  then have c: "classify (Some m) fs =
      Inr (if includes_str m ''github.com'' then GithubNarrative else WebsiteNarrative,
           no_metadata\<lparr>openIDE := Some True,
                       type_tag := Some (if includes_str m ''github.com'' then ''github''
                                         else ''website''),
                       md_url := Some (extractUrl m)\<rparr>)"
    by (rule classify_clone)
  show "\<exists>n md u. classify (Some m) fs = Inr (n, md) \<and> openIDE md = Some True \<and>
         category_of (type_tag md) =
           Some (if includes_str m ''github.com'' then GithubClone else WebsiteClone) \<and>
         md_url md = Some u \<and> first_url_match m u"
    unfolding c using extractUrl_first_match[of m] by (simp add: category_of_def no_metadata_def)
next
  show "classify (Some ''clone https://github.com/acme/widgets'') None =
       Inr (GithubNarrative,
            no_metadata\<lparr>openIDE := Some True, type_tag := Some ''github'',
                        md_url := Some ''https://github.com/acme/widgets''\<rparr>)"
    by (simp add: classify_def toLowerCase_def toLowerCase_char_def char_of_def bit_Suc_0_iff
        includes_str.simps startsWith_def extractUrl_def url_match_def isSpace_def)
qed

theorem clone_branch_witness:
  "includes_str (toLowerCase ''Clone http://example.com now'') ''clone''
   \<and> includes_str ''Clone http://example.com now'' ''http''
   \<and> (\<exists>n md u. classify (Some ''Clone http://example.com now'') (Some []) = Inr (n, md) \<and>
         openIDE md = Some True \<and> category_of (type_tag md) = Some WebsiteClone \<and>
         md_url md = Some u \<and> first_url_match ''Clone http://example.com now'' u)"
proof -
  have a: "includes_str (toLowerCase ''Clone http://example.com now'') ''clone''"
    by (simp add: toLowerCase_def toLowerCase_char_def char_of_def bit_Suc_0_iff
        includes_str.simps startsWith_def)
  have b: "includes_str ''Clone http://example.com now'' ''http''"
    by (simp add: includes_str.simps startsWith_def)
  have c: "\<not> includes_str ''Clone http://example.com now'' ''github.com''"
    by (simp add: includes_str.simps startsWith_def)
  from clone_branch[of "Some []" "''Clone http://example.com now''"] a b c
  show ?thesis by simp
qed

text \<open>
  C10. Two requests that differ in the field \<open>history\<close> only get the same answer from
  the endpoint: the same narrative, the same metadata and the same model, or the same
  error.
\<close>

theorem history_has_no_influence:
  "POST cfg \<lparr>message = m, model = mo, history = h1, files = fs\<rparr> =
   POST cfg \<lparr>message = m, model = mo, history = h2, files = fs\<rparr>"
  by (simp add: POST_def Let_def split: sum.splits prod.splits option.splits)

section \<open>Properties of the file upload\<close>

text \<open>
  C5. The claim: for every uploaded file the extraction returns a descriptor and never
  propagates an error; an unreadable payload gives a descriptor with name, type and
  size only, in the zip branch too. In the code the zip branch reads the payload
  outside any \<open>try\<close>: for an unreadable \<open>site.zip\<close> the error leaves
  \<open>handleFileUpload\<close> and no descriptor is added. The last branch does what the claim
  says: the unreadable \<open>notes.txt\<close> gets its descriptor without content.
\<close>

theorem unreadable_zip_propagates_the_error:
  "handleFileUpload
     (Some [\<lparr>raw_name = ''site.zip'', raw_type = ''application/zip'', raw_size = 2048,
             raw_text = None\<rparr>])
     \<lparr>uploadedFiles = [], object_urls = 0\<rparr> =
     (Inl NotReadableError, \<lparr>uploadedFiles = [], object_urls = 0\<rparr>)
   \<and> handleFileUpload
     (Some [\<lparr>raw_name = ''notes.txt'', raw_type = ''text/plain'', raw_size = 2048,
             raw_text = None\<rparr>])
     \<lparr>uploadedFiles = [], object_urls = 0\<rparr> =
     (Inr (),
      \<lparr>uploadedFiles = [\<lparr>name = ''notes.txt'', file_type = ''text/plain'', size_bytes = 2048,
                          content = None, blob_url = None\<rparr>],
       object_urls = 0\<rparr>)"
  by (simp add: handleFileUpload_def startsWith_def endsWith_def)

section \<open>Properties of the deployment\<close>

lemma handleDeploy_effects:
  "snd (handleDeploy p transport ed) =
     (case transport \<lparr>platform = platform_name p, dr_code = codeContent ed,
                      dr_fileName = ed_fileName ed, fileTree = ed_fileTree ed\<rparr> of
        Inl e \<Rightarrow> [SetDeploymentStatus Deploying, SetDeploymentStatus Error, SetTimeout 3000 Idle]
      | Inr d \<Rightarrow>
          if success d then
            [SetDeploymentStatus Deploying, SetDeploymentStatus Success,
             AppendDeployMessage (platform_name p) (dep_url d) (repoUrl d), SetTimeout 3000 Idle]
          else [SetDeploymentStatus Deploying, SetDeploymentStatus Error, SetTimeout 3000 Idle])"
  by (simp add: handleDeploy_def handleDeploy_body_def split: sum.splits)

text \<open>
  C8. Every call of \<open>handleDeploy\<close> returns normally, with a terminal status set. When the transport throws, or
  answers without success, the status is set to the failed state and no message with
  result URLs is appended. When the answer reports success, the status is set to the
  succeeded state and the message carries the URLs of the answer. Against the deploy
  endpoint of the repository, a deployment to \<open>vercel\<close> ends succeeded with a
  non-empty \<open>url\<close> and a non-empty \<open>repoUrl\<close>; the endpoint itself answers a body it
  cannot read, and a platform it does not know, with a failure that carries no URL.
\<close>

theorem deploy_reports_a_status:
  "fst (handleDeploy p transport (ed :: 'tree editor)) = Inr ()
   \<and> ((\<exists>e. transport \<lparr>platform = platform_name p, dr_code = codeContent ed,
                       dr_fileName = ed_fileName ed, fileTree = ed_fileTree ed\<rparr> = Inl e) \<or>
       (\<exists>d. transport \<lparr>platform = platform_name p, dr_code = codeContent ed,
                       dr_fileName = ed_fileName ed, fileTree = ed_fileTree ed\<rparr> = Inr d \<and>
            \<not> success d) \<longrightarrow>
       snd (handleDeploy p transport ed) =
         [SetDeploymentStatus Deploying, SetDeploymentStatus Error, SetTimeout 3000 Idle])
   \<and> (transport \<lparr>platform = platform_name p, dr_code = codeContent ed,
                  dr_fileName = ed_fileName ed, fileTree = ed_fileTree ed\<rparr> = Inr d \<and>
       success d \<longrightarrow>
       snd (handleDeploy p transport ed) =
         [SetDeploymentStatus Deploying, SetDeploymentStatus Success,
          AppendDeployMessage (platform_name p) (dep_url d) (repoUrl d), SetTimeout 3000 Idle])
   \<and> (\<exists>u r. snd (handleDeploy Vercel (own_endpoint t1 t2) ed) =
         [SetDeploymentStatus Deploying, SetDeploymentStatus Success,
          AppendDeployMessage ''vercel'' (Some u) (Some r), SetTimeout 3000 Idle] \<and>
         u \<noteq> [] \<and> r \<noteq> [])
   \<and> POST_deploy t1 t2 (None :: 'tree deploy_request option) =
       \<lparr>success = False, dep_url = None, repoUrl = None, error = Some ''Deployment failed''\<rparr>
   \<and> (platform (rq :: 'tree deploy_request) \<noteq> ''vercel'' \<and> platform rq \<noteq> ''github'' \<longrightarrow>
       POST_deploy t1 t2 (Some rq) =
         \<lparr>success = False, dep_url = None, repoUrl = None, error = Some ''Invalid platform''\<rparr>)"
proof (intro conjI impI)
  show "fst (handleDeploy p transport ed) = Inr ()" by (simp add: handleDeploy_def)
next
  assume "(\<exists>e. transport \<lparr>platform = platform_name p, dr_code = codeContent ed,
                       dr_fileName = ed_fileName ed, fileTree = ed_fileTree ed\<rparr> = Inl e) \<or>
       (\<exists>d. transport \<lparr>platform = platform_name p, dr_code = codeContent ed,
                       dr_fileName = ed_fileName ed, fileTree = ed_fileTree ed\<rparr> = Inr d \<and>
            \<not> success d)"
  then show "snd (handleDeploy p transport ed) =
         [SetDeploymentStatus Deploying, SetDeploymentStatus Error, SetTimeout 3000 Idle]"
    by (auto simp: handleDeploy_effects)
next
  assume "transport \<lparr>platform = platform_name p, dr_code = codeContent ed,
                  dr_fileName = ed_fileName ed, fileTree = ed_fileTree ed\<rparr> = Inr d \<and> success d"
  then show "snd (handleDeploy p transport ed) =
         [SetDeploymentStatus Deploying, SetDeploymentStatus Success,
          AppendDeployMessage (platform_name p) (dep_url d) (repoUrl d), SetTimeout 3000 Idle]"
    by (simp add: handleDeploy_effects)
next
  show "\<exists>u r. snd (handleDeploy Vercel (own_endpoint t1 t2) ed) =
         [SetDeploymentStatus Deploying, SetDeploymentStatus Success,
          AppendDeployMessage ''vercel'' (Some u) (Some r), SetTimeout 3000 Idle] \<and>
         u \<noteq> [] \<and> r \<noteq> []"
    by (simp add: handleDeploy_effects own_endpoint_def POST_deploy_def platform_name_def
        deployToVercel_def)
next
  show "POST_deploy t1 t2 (None :: 'tree deploy_request option) =
       \<lparr>success = False, dep_url = None, repoUrl = None, error = Some ''Deployment failed''\<rparr>"
    by (simp add: POST_deploy_def)
next
  assume "platform rq \<noteq> ''vercel'' \<and> platform rq \<noteq> ''github''"
  then show "POST_deploy t1 t2 (Some rq) =
         \<lparr>success = False, dep_url = None, repoUrl = None, error = Some ''Invalid platform''\<rparr>"
    by (simp add: POST_deploy_def)
qed

theorem deploy_reports_a_status_witness:
  "failing_transport \<lparr>platform = platform_name Github, dr_code = codeContent example_editor,
                      dr_fileName = ed_fileName example_editor,
                      fileTree = ed_fileTree example_editor\<rparr> = Inl NetworkError
   \<and> snd (handleDeploy Github failing_transport example_editor) =
       [SetDeploymentStatus Deploying, SetDeploymentStatus Error, SetTimeout 3000 Idle]
   \<and> snd (handleDeploy Github refusing_transport example_editor) =
       [SetDeploymentStatus Deploying, SetDeploymentStatus Error, SetTimeout 3000 Idle]
   \<and> success (POST_deploy 5 6 (Some \<lparr>platform = platform_name Vercel,
                  dr_code = codeContent example_editor, dr_fileName = ed_fileName example_editor,
                  fileTree = ed_fileTree example_editor\<rparr>))
   \<and> snd (handleDeploy Vercel (own_endpoint 5 6) example_editor) =
       [SetDeploymentStatus Deploying, SetDeploymentStatus Success,
        AppendDeployMessage ''vercel'' (Some ''https://your-app-5.vercel.app'')
          (Some ''https://github.com/user/your-app-6''),
        SetTimeout 3000 Idle]
   \<and> platform netlify_request \<noteq> ''vercel'' \<and> platform netlify_request \<noteq> ''github''
   \<and> POST_deploy 5 6 (Some netlify_request) =
       \<lparr>success = False, dep_url = None, repoUrl = None, error = Some ''Invalid platform''\<rparr>"
proof -
  let ?rq = "\<lambda>p. \<lparr>platform = platform_name p, dr_code = codeContent example_editor,
                   dr_fileName = ed_fileName example_editor,
                   fileTree = ed_fileTree example_editor\<rparr>"
  have a: "failing_transport (?rq Github) = Inl NetworkError"
    by (simp add: failing_transport_def)
  have b: "own_endpoint 5 6 (?rq Vercel) =
      Inr \<lparr>success = True, dep_url = Some ''https://your-app-5.vercel.app'',
           repoUrl = Some ''https://github.com/user/your-app-6'', error = None\<rparr>"
    by (simp add: own_endpoint_def POST_deploy_def platform_name_def deployToVercel_def
        toString.simps digit_char_def)
  have c: "success (POST_deploy 5 6 (Some (?rq Vercel)))"
    by (simp add: POST_deploy_def platform_name_def)
  have r: "\<exists>d. refusing_transport (?rq Github) = Inr d \<and> \<not> success d"
    by (simp add: refusing_transport_def)
  from deploy_reports_a_status[of Github refusing_transport example_editor _ 5 6 netlify_request] r
  have 4: "snd (handleDeploy Github refusing_transport example_editor) =
       [SetDeploymentStatus Deploying, SetDeploymentStatus Error, SetTimeout 3000 Idle]"
    by blast
  have n: "platform netlify_request \<noteq> ''vercel'' \<and> platform netlify_request \<noteq> ''github''"
    by (simp add: netlify_request_def)
  from deploy_reports_a_status[of Github failing_transport example_editor _ 5 6 netlify_request] n
  have 3: "POST_deploy 5 6 (Some netlify_request) =
       \<lparr>success = False, dep_url = None, repoUrl = None, error = Some ''Invalid platform''\<rparr>"
    by blast
  from deploy_reports_a_status[of Github failing_transport example_editor _ 5 6 netlify_request] a
  have 1: "snd (handleDeploy Github failing_transport example_editor) =
       [SetDeploymentStatus Deploying, SetDeploymentStatus Error, SetTimeout 3000 Idle]"
    by blast
  from deploy_reports_a_status[of Vercel "own_endpoint 5 6" example_editor
         "\<lparr>success = True, dep_url = Some ''https://your-app-5.vercel.app'',
           repoUrl = Some ''https://github.com/user/your-app-6'', error = None\<rparr>" 5 6
         netlify_request] b
  have 2: "snd (handleDeploy Vercel (own_endpoint 5 6) example_editor) =
       [SetDeploymentStatus Deploying, SetDeploymentStatus Success,
        AppendDeployMessage ''vercel'' (Some ''https://your-app-5.vercel.app'')
          (Some ''https://github.com/user/your-app-6''),
        SetTimeout 3000 Idle]"
    by (simp add: platform_name_def)
  from a 1 4 c 2 n 3 show ?thesis by blast
qed

text \<open>
  C9. The status values that one attempt sets are, in order, the in-progress state,
  then one terminal state (succeeded or failed), then the idle state; the terminal
  state is never set before the in-progress state, and the return to idle is the
  callback of a timer of 3000 milliseconds that the last statement of the attempt
  sets. With the idle state the attempt starts from, the observed sequence is a
  subsequence of idle, in-progress, terminal, idle (it is that sequence itself).
\<close>

theorem deploy_status_sequence:
  "\<exists>t. (t = Success \<or> t = Error)
     \<and> emitted (snd (handleDeploy p transport ed)) = [Deploying, t, Idle]
     \<and> subseq (Idle # emitted (snd (handleDeploy p transport ed))) [Idle, Deploying, t, Idle]
     \<and> hd (snd (handleDeploy p transport ed)) = SetDeploymentStatus Deploying
     \<and> last (snd (handleDeploy p transport ed)) = SetTimeout 3000 Idle"
proof (cases "transport \<lparr>platform = platform_name p, dr_code = codeContent ed,
                         dr_fileName = ed_fileName ed, fileTree = ed_fileTree ed\<rparr>")
  case (Inl e)
  then have "snd (handleDeploy p transport ed) =
      [SetDeploymentStatus Deploying, SetDeploymentStatus Error, SetTimeout 3000 Idle]"
    by (simp add: handleDeploy_effects)
  then show ?thesis by (simp add: emitted_def)
next
  case (Inr d)
  show ?thesis
  proof (cases "success d")
    case True
    with Inr have "snd (handleDeploy p transport ed) =
        [SetDeploymentStatus Deploying, SetDeploymentStatus Success,
         AppendDeployMessage (platform_name p) (dep_url d) (repoUrl d), SetTimeout 3000 Idle]"
      by (simp add: handleDeploy_effects)
    then show ?thesis by (simp add: emitted_def)
  next
    case False
    with Inr have "snd (handleDeploy p transport ed) =
        [SetDeploymentStatus Deploying, SetDeploymentStatus Error, SetTimeout 3000 Idle]"
      by (simp add: handleDeploy_effects)
    then show ?thesis by (simp add: emitted_def)
  qed
qed

end
